theory Spec2Isabelle
  imports Complex_Main "HOL-Library.Word"
begin

unbundle bit_operations_syntax

section \<open>The Art-Net consumer of CasparCG: data model\<close>

text \<open>
  The development follows \<^verbatim>\<open>src/modules/artnet/consumer/artnet_consumer.cpp\<close>.
  The structs \<^verbatim>\<open>fixture\<close>, \<^verbatim>\<open>computed_fixture\<close>, \<^verbatim>\<open>sender\<close>, \<^verbatim>\<open>computed_sender\<close>,
  \<^verbatim>\<open>box\<close> and the enum \<^verbatim>\<open>FixtureType\<close> are declared in \<^verbatim>\<open>util/fixture_calculation.h\<close>;
  the consumer uses them field by field, and the records below have the fields it uses.
\<close>

type_synonym uint8_t = "8 word"

datatype FixtureType = DIMMER | RGB | RGBW

text \<open>
  Modelled from the spec: the enumerator values of \<^verbatim>\<open>FixtureType\<close>
  (\<^verbatim>\<open>util/fixture_calculation.h\<close>). The consumer reads a type as an integer
  (\<^verbatim>\<open>fixtureChannels = f.type\<close>); the value is the type's intrinsic minimum channel count,
  1 for a dimmer, 3 for RGB, 4 for RGBW.
\<close>

fun type_value :: "FixtureType \<Rightarrow> int" where
  "type_value DIMMER = 1"
| "type_value RGB = 3"
| "type_value RGBW = 4"

text \<open>
  Modelled from the spec: the color \<^verbatim>\<open>average_color\<close> returns has three unsigned
  8-bit channels \<^verbatim>\<open>r\<close>, \<^verbatim>\<open>g\<close>, \<^verbatim>\<open>b\<close>.
\<close>

record color =
  color_r :: uint8_t
  color_g :: uint8_t
  color_b :: uint8_t

section \<open>Double-precision arithmetic of the dimmer formula\<close>

text \<open>
  The dimmer channel is computed in \<^verbatim>\<open>double\<close>. A finite double is a rational number;
  every literal and every operation is evaluated in double precision and rounded once
  to the nearest binary64 value, ties to the even significand (the default rounding
  mode; no fused multiply-add). \<open>binary64 x\<close> is that rounding: zero stays zero; otherwise
  the exponent \<open>e\<close> of \<open>x\<close> is found by halving or doubling (at most 1023 halvings; at most
  1022 doublings, where the subnormal range begins and the spacing stays \<open>2 ^ -1074\<close>),
  and \<open>x\<close> is rounded to a multiple of \<open>2 ^ (e - 52)\<close>. Overflow to infinity is not
  represented; the values of the dimmer formula stay below 256.
\<close>

definition round_half_even :: "rat \<Rightarrow> int" where
  "round_half_even q =
     (let f = \<lfloor>q\<rfloor>; d = q - of_int f
      in if d < 1 / 2 then f else if 1 / 2 < d then f + 1 else if even f then f else f + 1)"

primrec halvings :: "nat \<Rightarrow> rat \<Rightarrow> int" where
  "halvings 0 x = 0"
| "halvings (Suc k) x = (if x < 2 then 0 else halvings k (x / 2) + 1)"

primrec doublings :: "nat \<Rightarrow> rat \<Rightarrow> int" where
  "doublings 0 x = 0"
| "doublings (Suc k) x = (if 1 \<le> x then 0 else doublings k (2 * x) + 1)"

definition binary64_exponent :: "rat \<Rightarrow> int" where
  "binary64_exponent x =
     (if 1 \<le> \<bar>x\<bar> then halvings 1023 \<bar>x\<bar> else - doublings 1022 \<bar>x\<bar>)"

definition binary64 :: "rat \<Rightarrow> rat" where
  "binary64 x =
     (if x = 0 then 0
      else
        let u = 2 powi (binary64_exponent x - 52)
        in of_int (round_half_even (x / u)) * u)"

definition double_mul :: "rat \<Rightarrow> rat \<Rightarrow> rat" where
  "double_mul a b = binary64 (a * b)"

definition double_add :: "rat \<Rightarrow> rat \<Rightarrow> rat" where
  "double_add a b = binary64 (a + b)"

text \<open>A \<^verbatim>\<open>uint8_t\<close> operand converts to \<^verbatim>\<open>double\<close> exactly.\<close>

definition double_of_uint8 :: "uint8_t \<Rightarrow> rat" where
  "double_of_uint8 v = of_nat (unat v)"

text \<open>
  \<^verbatim>\<open>0.279 * color.r + 0.547 * color.g + 0.106 * color.b\<close>: three products, added left to
  right.
\<close>

definition dimmer_double :: "color \<Rightarrow> rat" where
  "dimmer_double c =
     double_add
       (double_add (double_mul (binary64 (279 / 1000)) (double_of_uint8 (color_r c)))
                   (double_mul (binary64 (547 / 1000)) (double_of_uint8 (color_g c))))
       (double_mul (binary64 (106 / 1000)) (double_of_uint8 (color_b c)))"

text \<open>
  The cast \<^verbatim>\<open>(uint8_t) d\<close> discards the fractional part (towards zero). The cast is only
  defined when the truncated value fits the type; \<open>word_of_int\<close> is the value then.
\<close>

definition truncate_double :: "rat \<Rightarrow> int" where
  "truncate_double d = (if 0 \<le> d then \<lfloor>d\<rfloor> else \<lceil>d\<rceil>)"

definition uint8_of_double :: "rat \<Rightarrow> uint8_t" where
  "uint8_of_double d = word_of_int (truncate_double d)"

section \<open>Channel encoder\<close>

text \<open>
  The \<^verbatim>\<open>switch\<close> of \<^verbatim>\<open>send_computed_sender\<close>: the bytes a fixture of each type stores at
  \<^verbatim>\<open>ptr[0]\<close>, \<^verbatim>\<open>ptr[1]\<close>, ... for a sampled color.
\<close>

definition min_uint8 :: "uint8_t \<Rightarrow> uint8_t \<Rightarrow> uint8_t" where
  "min_uint8 a b = (if b < a then b else a)"

fun encode :: "FixtureType \<Rightarrow> color \<Rightarrow> uint8_t list" where
  "encode DIMMER c = [uint8_of_double (dimmer_double c)]"
| "encode RGB c = [color_r c, color_g c, color_b c]"
| "encode RGBW c =
     (let w = min_uint8 (min_uint8 (color_r c) (color_g c)) (color_b c)
      in [color_r c - w, color_g c - w, color_b c - w, w])"

text \<open>
  The dimmer value in the spec's words, for comparison with the code: the weighted sum
  \<open>0.279 r + 0.547 g + 0.106 b\<close> as an exact number, and its floor.
\<close>

definition dimmer_weighted_sum :: "color \<Rightarrow> rat" where
  "dimmer_weighted_sum c =
     279 / 1000 * of_nat (unat (color_r c)) + 547 / 1000 * of_nat (unat (color_g c))
     + 106 / 1000 * of_nat (unat (color_b c))"

definition dimmer_spec :: "color \<Rightarrow> int" where
  "dimmer_spec c = \<lfloor>dimmer_weighted_sum c\<rfloor>"

section \<open>Errors\<close>

text \<open>
  Every exception of the source is a value. \<open>user_error\<close> carries the message of
  \<^verbatim>\<open>CASPAR_THROW_EXCEPTION(user_error() << msg_info(...))\<close>; \<open>ptree_exception\<close> is what
  \<^verbatim>\<open>ptree_verify_element_name\<close> throws; \<open>address_error\<close> is what
  \<^verbatim>\<open>boost::asio::ip::address::from_string\<close> throws on a string that is no address;
  \<open>io_error\<close> is thrown after a failed \<^verbatim>\<open>send_to\<close>. \<open>out_of_bounds\<close> stands for a read of
  \<^verbatim>\<open>send_dmx_data\<close> beyond the data it is given, which no call of the consumer makes.
\<close>

datatype error =
    user_error string
  | ptree_exception
  | address_error
  | io_error
  | out_of_bounds

section \<open>Computed geometry\<close>

record 'rect computed_fixture =
  computed_type :: FixtureType
  address :: int
  rectangle :: 'rect

text \<open>
  The endpoint is the parsed address with the port; \<^verbatim>\<open>udp::endpoint\<close> takes the port as
  an unsigned 16-bit number.
\<close>

record ('addr, 'rect) computed_sender =
  endpoint :: "'addr \<times> 16 word"
  computed_universe :: int
  computed_fixtures :: "'rect computed_fixture list"

section \<open>Universe buffer\<close>

text \<open>
  \<^verbatim>\<open>ptr[k] = v\<close> with \<^verbatim>\<open>ptr = dmx_data + address\<close>. The source makes the store without a test
  of the index. Inside the array it changes that byte of the array. Outside it the array
  stays as it is: the byte addressed lies in the stack beside the array (undefined
  behaviour in C++). The model keeps these stores, offset and value, in \<open>overrun\<close>, in the
  order they are made, and follows what they overwrite no further.
\<close>

record stack_memory =
  dmx_array :: "uint8_t list"
  overrun :: "(int \<times> uint8_t) list"

definition store :: "stack_memory \<Rightarrow> int \<Rightarrow> uint8_t \<Rightarrow> stack_memory" where
  "store m i v =
     (if 0 \<le> i \<and> i < int (length (dmx_array m))
      then m\<lparr>dmx_array := (dmx_array m)[nat i := v]\<rparr>
      else m\<lparr>overrun := overrun m @ [(i, v)]\<rparr>)"

fun store_all :: "stack_memory \<Rightarrow> int \<Rightarrow> uint8_t list \<Rightarrow> stack_memory" where
  "store_all m i [] = m"
| "store_all m i (v # vs) = store_all (store m i v) (i + 1) vs"

text \<open>
  The body of the loop over \<^verbatim>\<open>sender.fixtures\<close>: sample the color of the fixture's
  rectangle, store the bytes of its type from its address on. \<^verbatim>\<open>average_color\<close> is
  supplied by the video pipeline and is a parameter here.
\<close>

definition write_fixture ::
  "('frame \<Rightarrow> 'rect \<Rightarrow> color) \<Rightarrow> 'frame \<Rightarrow> stack_memory \<Rightarrow> 'rect computed_fixture
    \<Rightarrow> stack_memory" where
  "write_fixture average_color frame m f =
     store_all m (address f) (encode (computed_type f) (average_color frame (rectangle f)))"

fun write_fixtures ::
  "('frame \<Rightarrow> 'rect \<Rightarrow> color) \<Rightarrow> 'frame \<Rightarrow> stack_memory \<Rightarrow> 'rect computed_fixture list
    \<Rightarrow> stack_memory" where
  "write_fixtures average_color frame m [] = m"
| "write_fixtures average_color frame m (f # fs) =
     write_fixtures average_color frame (write_fixture average_color frame m f) fs"

text \<open>
  \<^verbatim>\<open>uint8_t dmx_data[512]; memset(dmx_data, 0, 512);\<close> and then the loop: the memory when
  \<^verbatim>\<open>send_computed_sender\<close> hands the array to \<^verbatim>\<open>send_dmx_data\<close>.
\<close>

definition universe_buffer ::
  "('frame \<Rightarrow> 'rect \<Rightarrow> color) \<Rightarrow> 'frame \<Rightarrow> ('addr, 'rect) computed_sender \<Rightarrow> stack_memory" where
  "universe_buffer average_color frame sender =
     write_fixtures average_color frame \<lparr>dmx_array = replicate 512 0, overrun = []\<rparr>
       (computed_fixtures sender)"

text \<open>
  A fixture writes the channel slots from its address on, as many as its type has
  channels; it fits the universe when all of them are inside the 512 slots.
\<close>

definition written :: "'rect computed_fixture \<Rightarrow> nat \<Rightarrow> bool" where
  "written f i \<longleftrightarrow> address f \<le> int i \<and> int i < address f + type_value (computed_type f)"


section \<open>Universe packetizer and transport\<close>

text \<open>
  \<^verbatim>\<open>send_dmx_data\<close>. The universe is an \<^verbatim>\<open>int\<close>; \<^verbatim>\<open>>> 8\<close> on it is \<open>drop_bit 8\<close> (for a
  negative value the arithmetic shift), and the conversion to \<^verbatim>\<open>uint8_t\<close> is
  \<open>word_of_int\<close>. The length is a \<^verbatim>\<open>size_t\<close>.
\<close>

definition header :: "int \<Rightarrow> nat \<Rightarrow> uint8_t list" where
  "header universe len =
     (let hUni = word_of_int (drop_bit 8 universe AND 255);
          lUni = word_of_int (universe AND 255);
          hLen = of_nat (drop_bit 8 len AND 255);
          lLen = of_nat (len AND 255)
      in [65, 114, 116, 45, 78, 101, 116, 0, 0, 80, 0, 14, 0, 0, lUni, hUni, hLen, lLen])"

text \<open>The loop \<^verbatim>\<open>for (int i = 0; i < 18 + 512; i++)\<close> that fills \<^verbatim>\<open>buffer\<close>.\<close>

definition buffer :: "int \<Rightarrow> uint8_t list \<Rightarrow> nat \<Rightarrow> uint8_t list" where
  "buffer universe data len =
     map (\<lambda>i. if i < 18 then header universe len ! i
              else if i - 18 < len then data ! (i - 18)
              else 0)
       [0..<18 + 512]"

text \<open>
  The transport. \<open>wire\<close> is the sequence of datagrams handed to \<^verbatim>\<open>socket.send_to\<close>, each
  with its endpoint, in order. Whether a call reports an error is decided outside the
  program: \<open>send_fails wire ep buf\<close> tells it for the datagram \<open>buf\<close> to \<open>ep\<close> after the
  calls \<open>wire\<close>. The result is the exception thrown, if any, and the new wire. The loop
  reads \<^verbatim>\<open>data[i - 18]\<close> for \<^verbatim>\<open>i - 18 < length\<close>, so \<open>data\<close> has to hold that many bytes.
\<close>

type_synonym 'addr wire = "(('addr \<times> 16 word) \<times> uint8_t list) list"

definition send_dmx_data ::
  "('addr wire \<Rightarrow> 'addr \<times> 16 word \<Rightarrow> uint8_t list \<Rightarrow> bool) \<Rightarrow> ('addr, 'rect) computed_sender
    \<Rightarrow> uint8_t list \<Rightarrow> nat \<Rightarrow> 'addr wire \<Rightarrow> error option \<times> 'addr wire" where
  "send_dmx_data send_fails sender data len wire =
     (if length data < min len 512 then (Some out_of_bounds, wire)
      else
        let buf = buffer (computed_universe sender) data len;
            err = send_fails wire (endpoint sender) buf
        in (if err then Some io_error else None, wire @ [(endpoint sender, buf)]))"

definition send_computed_sender ::
  "('frame \<Rightarrow> 'rect \<Rightarrow> color) \<Rightarrow> ('addr wire \<Rightarrow> 'addr \<times> 16 word \<Rightarrow> uint8_t list \<Rightarrow> bool)
    \<Rightarrow> ('addr, 'rect) computed_sender \<Rightarrow> 'frame \<Rightarrow> 'addr wire \<Rightarrow> error option \<times> 'addr wire" where
  "send_computed_sender average_color send_fails sender frame wire =
     send_dmx_data send_fails sender
       (dmx_array (universe_buffer average_color frame sender)) 512 wire"

text \<open>
  \<^verbatim>\<open>for (auto computed_sender : computed_senders) send_computed_sender(...)\<close>: an exception
  leaves the loop.
\<close>

fun send_computed_senders ::
  "('frame \<Rightarrow> 'rect \<Rightarrow> color) \<Rightarrow> ('addr wire \<Rightarrow> 'addr \<times> 16 word \<Rightarrow> uint8_t list \<Rightarrow> bool)
    \<Rightarrow> ('addr, 'rect) computed_sender list \<Rightarrow> 'frame \<Rightarrow> 'addr wire
    \<Rightarrow> error option \<times> 'addr wire" where
  "send_computed_senders average_color send_fails [] frame wire = (None, wire)"
| "send_computed_senders average_color send_fails (s # ss) frame wire =
     (case send_computed_sender average_color send_fails s frame wire of
        (Some e, wire') \<Rightarrow> (Some e, wire')
      | (None, wire') \<Rightarrow> send_computed_senders average_color send_fails ss frame wire')"

section \<open>Declared configuration\<close>

text \<open>
  Modelled from the spec: the field types of \<^verbatim>\<open>fixture\<close> and \<^verbatim>\<open>sender\<close>
  (\<^verbatim>\<open>util/fixture_calculation.h\<close>). Addresses, counts, channel strides, the universe and the
  port are integers, and a field holds the integer assigned to it. The five numbers of a
  box are floats; the consumer only passes them on, so their type \<open>'fl\<close> is left open.
\<close>

record 'fl box =
  box_x :: 'fl
  box_y :: 'fl
  box_width :: 'fl
  box_height :: 'fl
  box_rotation :: 'fl

record 'fl fixture =
  fixture_type :: FixtureType
  startAddress :: int
  fixtureCount :: int
  fixtureChannels :: int
  fixtureBox :: "'fl box"

record 'fl sender =
  universe :: int
  host :: string
  port :: int
  fixtures :: "'fl fixture list"

record 'fl configuration =
  refreshRate :: int
  senders :: "'fl sender list"

section \<open>Geometry compiler\<close>

text \<open>
  The loops of \<^verbatim>\<open>compute_fixtures\<close>: for every fixture of the sender, for \<^verbatim>\<open>i\<close> from 0 below
  \<^verbatim>\<open>fixtureCount\<close>, one computed fixture is appended to the local vector
  \<^verbatim>\<open>computed_fixtures\<close>. \<^verbatim>\<open>compute_rect\<close> is the subdivision utility, a parameter here. The
  address is computed in \<^verbatim>\<open>int\<close>: \<open>int_value\<close> is the 32-bit two's complement value of an
  integer, the integer itself inside the range of \<^verbatim>\<open>int\<close> (beyond it the C++ result is
  undefined, and the model takes the value the machine arithmetic gives).
\<close>

definition int_value :: "int \<Rightarrow> int" where
  "int_value v = signed_take_bit 31 v"

definition instances ::
  "('fl box \<Rightarrow> int \<Rightarrow> int \<Rightarrow> 'rect) \<Rightarrow> 'fl fixture \<Rightarrow> 'rect computed_fixture list" where
  "instances compute_rect f =
     map (\<lambda>i. \<lparr>computed_type = fixture_type f,
               address = int_value (startAddress f + int_value (int i * fixtureChannels f)),
               rectangle = compute_rect (fixtureBox f) (int i) (fixtureCount f)\<rparr>)
       [0..<nat (fixtureCount f)]"

definition compute_fixtures_loop ::
  "('fl box \<Rightarrow> int \<Rightarrow> int \<Rightarrow> 'rect) \<Rightarrow> 'fl sender \<Rightarrow> 'rect computed_fixture list" where
  "compute_fixtures_loop compute_rect s = concat (map (instances compute_rect) (fixtures s))"

text \<open>
  The function ends with \<^verbatim>\<open>return compute_fixtures;\<close>: the statement names the member
  function itself, not the vector \<^verbatim>\<open>computed_fixtures\<close> that the loops have built, and is
  ill-formed. The source therefore does not say what a call of \<^verbatim>\<open>compute_fixtures\<close>
  yields. Where the consumer calls it, in \<^verbatim>\<open>compute_senders\<close>, the result of the call is
  a parameter of the model, named \<open>compute_fixtures\<close>.
\<close>

section \<open>The consumer\<close>

text \<open>
  The fields of \<^verbatim>\<open>artnet_consumer\<close> the claims are about. \<open>last_frame\<close> is a
  \<^verbatim>\<open>core::const_frame\<close>: \<open>None\<close> is the empty frame, the one \<^verbatim>\<open>!frame\<close> holds of, which is
  also the value of the field before any delivery. \<open>thread_joinable\<close> tells whether the
  pacing thread has been started.
\<close>

record ('fl, 'addr, 'rect, 'frame) artnet_consumer =
  config :: "'fl configuration"
  computed_senders :: "('addr, 'rect) computed_sender list"
  last_frame :: "'frame option"
  abort_request :: bool
  thread_joinable :: bool

text \<open>
  \<^verbatim>\<open>compute_senders\<close>: the list is cleared, then one computed sender is appended for every
  sender. \<open>from_string\<close> is \<^verbatim>\<open>boost::asio::ip::address::from_string\<close>, which throws on a
  host that is no address (\<open>None\<close>); the port is converted to the 16 bits of the endpoint.
\<close>

fun compute_senders_loop ::
  "(string \<Rightarrow> 'addr option) \<Rightarrow> ('fl sender \<Rightarrow> 'rect computed_fixture list) \<Rightarrow> 'fl sender list
    \<Rightarrow> ('addr, 'rect) computed_sender list \<Rightarrow> error + ('addr, 'rect) computed_sender list" where
  "compute_senders_loop from_string compute_fixtures [] acc = Inr acc"
| "compute_senders_loop from_string compute_fixtures (s # ss) acc =
     (case from_string (host s) of
        None \<Rightarrow> Inl address_error
      | Some a \<Rightarrow>
          compute_senders_loop from_string compute_fixtures ss
            (acc @ [\<lparr>endpoint = (a, word_of_int (port s)), computed_universe = universe s,
                     computed_fixtures = compute_fixtures s\<rparr>]))"

definition compute_senders ::
  "(string \<Rightarrow> 'addr option) \<Rightarrow> ('fl sender \<Rightarrow> 'rect computed_fixture list)
    \<Rightarrow> ('fl, 'addr, 'rect, 'frame) artnet_consumer
    \<Rightarrow> error + ('fl, 'addr, 'rect, 'frame) artnet_consumer" where
  "compute_senders from_string compute_fixtures c =
     (case compute_senders_loop from_string compute_fixtures (senders (config c)) [] of
        Inl e \<Rightarrow> Inl e
      | Inr cs \<Rightarrow> Inr (c\<lparr>computed_senders := cs\<rparr>))"

text \<open>
  The constructor: the fields take their initial values and \<^verbatim>\<open>compute_senders\<close> runs; an
  exception there leaves no consumer. (The socket is opened by the operating system; the
  model follows the runs in which that succeeds.)
\<close>

definition new_artnet_consumer ::
  "(string \<Rightarrow> 'addr option) \<Rightarrow> ('fl sender \<Rightarrow> 'rect computed_fixture list) \<Rightarrow> 'fl configuration
    \<Rightarrow> error + ('fl, 'addr, 'rect, 'frame) artnet_consumer" where
  "new_artnet_consumer from_string compute_fixtures cfg =
     compute_senders from_string compute_fixtures
       \<lparr>config = cfg, computed_senders = [], last_frame = None, abort_request = False,
        thread_joinable = False\<rparr>"

text \<open>\<^verbatim>\<open>initialize\<close> starts the pacing thread; the destructor requests its end.\<close>

definition initialize ::
  "('fl, 'addr, 'rect, 'frame) artnet_consumer \<Rightarrow> ('fl, 'addr, 'rect, 'frame) artnet_consumer" where
  "initialize c = c\<lparr>thread_joinable := True\<rparr>"

definition destroy ::
  "('fl, 'addr, 'rect, 'frame) artnet_consumer \<Rightarrow> ('fl, 'addr, 'rect, 'frame) artnet_consumer" where
  "destroy c = c\<lparr>abort_request := True\<rparr>"

subsection \<open>Frame mailbox\<close>

text \<open>
  \<^verbatim>\<open>send\<close> stores the frame under the mutex and returns \<^verbatim>\<open>make_ready_future(true)\<close>. A
  future is ready with its value or still pending.
\<close>

datatype 'a future = Ready 'a | Pending

definition send ::
  "'field \<Rightarrow> 'frame option \<Rightarrow> ('fl, 'addr, 'rect, 'frame) artnet_consumer
    \<Rightarrow> bool future \<times> ('fl, 'addr, 'rect, 'frame) artnet_consumer" where
  "send field frame c = (Ready True, c\<lparr>last_frame := frame\<rparr>)"

text \<open>A sequence of calls of \<^verbatim>\<open>send\<close>, with the futures they return.\<close>

fun sends ::
  "('field \<times> 'frame option) list \<Rightarrow> ('fl, 'addr, 'rect, 'frame) artnet_consumer
    \<Rightarrow> bool future list \<times> ('fl, 'addr, 'rect, 'frame) artnet_consumer" where
  "sends [] c = ([], c)"
| "sends ((field, frame) # rest) c =
     (case send field frame c of
        (r, c') \<Rightarrow> (case sends rest c' of (rs, c'') \<Rightarrow> (r # rs, c'')))"

subsection \<open>Diagnostics\<close>

text \<open>\<^verbatim>\<open>state\<close>: three entries of the monitor state, by key.\<close>

definition state :: "('fl, 'addr, 'rect, 'frame) artnet_consumer \<Rightarrow> (string \<rightharpoonup> int)" where
  "state c =
     ((Map.empty
        (''artnet/computed-senders'' \<mapsto> int (length (computed_senders c))))
        (''artnet/senders'' \<mapsto> int (length (senders (config c)))))
        (''artnet/refresh-rate'' \<mapsto> refreshRate (config c))"

subsection \<open>Pacing loop\<close>

text \<open>
  What the pacing thread acts on besides the consumer: the datagrams handed to the socket
  and the exceptions logged by \<^verbatim>\<open>CASPAR_LOG_CURRENT_EXCEPTION\<close>.
\<close>

record 'addr world =
  sent :: "'addr wire"
  logged :: "error list"

text \<open>
  The body of the \<^verbatim>\<open>while\<close> loop after the sleep: the frame is read under the mutex; with
  no frame the iteration ends (\<^verbatim>\<open>continue\<close>); otherwise \<^verbatim>\<open>send_computed_senders\<close> runs
  inside \<^verbatim>\<open>try\<close>, and \<^verbatim>\<open>catch (...)\<close> logs what it throws. The sleep itself takes time
  and changes nothing else.
\<close>

definition pacing_iteration ::
  "('frame \<Rightarrow> 'rect \<Rightarrow> color) \<Rightarrow> ('addr wire \<Rightarrow> 'addr \<times> 16 word \<Rightarrow> uint8_t list \<Rightarrow> bool)
    \<Rightarrow> ('fl, 'addr, 'rect, 'frame) artnet_consumer \<Rightarrow> 'addr world \<Rightarrow> 'addr world" where
  "pacing_iteration average_color send_fails c w =
     (case last_frame c of
        None \<Rightarrow> w
      | Some frame \<Rightarrow>
          (case send_computed_senders average_color send_fails (computed_senders c) frame (sent w) of
             (None, wire') \<Rightarrow> w\<lparr>sent := wire'\<rparr>
           | (Some e, wire') \<Rightarrow> w\<lparr>sent := wire', logged := logged w @ [e]\<rparr>))"

text \<open>
  The other threads act on the consumer by delivering frames and by destroying it. The
  loop is followed over a finite schedule: for every iteration, the events of the other
  threads that take effect after the test of \<^verbatim>\<open>abort_request_\<close> and before the frame is
  read. The loop ends when it finds the flag set; at the end of the schedule it is still
  running.
\<close>

datatype 'frame event = Deliver "'frame option" | Destroy

fun apply_event ::
  "'frame event \<Rightarrow> ('fl, 'addr, 'rect, 'frame) artnet_consumer
    \<Rightarrow> ('fl, 'addr, 'rect, 'frame) artnet_consumer" where
  "apply_event (Deliver frame) c = snd (send () frame c)"
| "apply_event Destroy c = destroy c"

fun pacing_thread ::
  "('frame \<Rightarrow> 'rect \<Rightarrow> color) \<Rightarrow> ('addr wire \<Rightarrow> 'addr \<times> 16 word \<Rightarrow> uint8_t list \<Rightarrow> bool)
    \<Rightarrow> 'frame event list list \<Rightarrow> ('fl, 'addr, 'rect, 'frame) artnet_consumer \<Rightarrow> 'addr world
    \<Rightarrow> ('fl, 'addr, 'rect, 'frame) artnet_consumer \<times> 'addr world" where
  "pacing_thread average_color send_fails [] c w = (c, w)"
| "pacing_thread average_color send_fails (evs # rest) c w =
     (if abort_request c then (c, w)
      else
        let c' = fold apply_event evs c
        in pacing_thread average_color send_fails rest c' (pacing_iteration average_color send_fails c' w))"

section \<open>Reading the configuration\<close>

text \<open>
  The property tree as the consumer reads it. A field of an element holds what
  \<^verbatim>\<open>get(key, default)\<close> finds under the key: \<open>None\<close> when the key is absent or its text does
  not convert to the requested type, in which case \<^verbatim>\<open>get\<close> returns the default. The
  children of \<^verbatim>\<open>senders\<close> and of \<^verbatim>\<open>fixtures\<close> are the elements the iteration yields, each
  with its name.
\<close>

record 'fl xml_fixture =
  xml_start_address :: "int option"
  xml_fixture_count :: "int option"
  xml_type :: "string option"
  xml_fixture_channels :: "int option"
  xml_x :: "'fl option"
  xml_y :: "'fl option"
  xml_width :: "'fl option"
  xml_height :: "'fl option"
  xml_rotation :: "'fl option"



definition ptree_get :: "'a option \<Rightarrow> 'a \<Rightarrow> 'a" where
  "ptree_get v d = (case v of None \<Rightarrow> d | Some x \<Rightarrow> x)"

text \<open>
  \<^verbatim>\<open>boost::iequals\<close> compares two strings of the same length character by character,
  ignoring case; on the characters of the type names that is the ASCII upper case.
\<close>

definition to_upper :: "char \<Rightarrow> char" where
  "to_upper c =
     (case map_of (zip ''abcdefghijklmnopqrstuvwxyz'' ''ABCDEFGHIJKLMNOPQRSTUVWXYZ'') c of
        None \<Rightarrow> c
      | Some u \<Rightarrow> u)"

definition iequals :: "string \<Rightarrow> string \<Rightarrow> bool" where
  "iequals a b \<longleftrightarrow> map to_upper a = map to_upper b"

text \<open>The chain of comparisons that selects the fixture type; \<open>None\<close> is its last branch.\<close>

definition fixture_type_of :: "string \<Rightarrow> FixtureType option" where
  "fixture_type_of t =
     (if iequals t ''DIMMER'' then Some DIMMER
      else if iequals t ''RGB'' then Some RGB
      else if iequals t ''RGBW'' then Some RGBW
      else None)"

text \<open>
  The body of the loop of \<^verbatim>\<open>get_fixtures_ptree\<close>, one fixture element. \<open>verify\<close> is
  \<^verbatim>\<open>ptree_verify_element_name\<close> (\<^verbatim>\<open>common/ptree.h\<close>), a parameter: it holds when the call
  returns and fails when it throws.
\<close>

definition get_fixture_ptree ::
  "(string \<Rightarrow> string \<Rightarrow> bool) \<Rightarrow> string \<times> ('fl::zero) xml_fixture \<Rightarrow> error + 'fl fixture" where
  "get_fixture_ptree verify xml_fixture =
     (if \<not> verify (fst xml_fixture) ''fixture'' then Inl ptree_exception
      else
        let startAddress = ptree_get (xml_start_address (snd xml_fixture)) 0 in
        if startAddress < 1 then Inl (user_error ''Fixture start address must be specified'')
        else
          let fixtureCount = ptree_get (xml_fixture_count (snd xml_fixture)) (- 1) in
          if fixtureCount < 1 then Inl (user_error ''Fixture count must be specified'')
          else
            let type = ptree_get (xml_type (snd xml_fixture)) [] in
            if type = [] then Inl (user_error ''Fixture type must be specified'')
            else
              (case fixture_type_of type of
                 None \<Rightarrow> Inl (user_error ''Unknown fixture type'')
               | Some t \<Rightarrow>
                   let fixtureChannels0 = ptree_get (xml_fixture_channels (snd xml_fixture)) (- 1);
                       fixtureChannels =
                         (if fixtureChannels0 < 0 then type_value t else fixtureChannels0)
                   in
                     if fixtureChannels < type_value t
                     then Inl (user_error
                       ''Fixture channel count must be at least enough channels for current color mode'')
                     else
                       Inr \<lparr>fixture_type = t,
                            startAddress = startAddress - 1,
                            fixtureCount = fixtureCount,
                            fixtureChannels = fixtureChannels,
                            fixtureBox =
                              \<lparr>box_x = ptree_get (xml_x (snd xml_fixture)) 0,
                               box_y = ptree_get (xml_y (snd xml_fixture)) 0,
                               box_width = ptree_get (xml_width (snd xml_fixture)) 0,
                               box_height = ptree_get (xml_height (snd xml_fixture)) 0,
                               box_rotation = ptree_get (xml_rotation (snd xml_fixture)) 0\<rparr>\<rparr>))"

fun get_fixtures_ptree ::
  "(string \<Rightarrow> string \<Rightarrow> bool) \<Rightarrow> (string \<times> ('fl::zero) xml_fixture) list
    \<Rightarrow> error + 'fl fixture list" where
  "get_fixtures_ptree verify [] = Inr []"
| "get_fixtures_ptree verify (x # xs) =
     (case get_fixture_ptree verify x of
        Inl e \<Rightarrow> Inl e
      | Inr f \<Rightarrow>
          (case get_fixtures_ptree verify xs of
             Inl e \<Rightarrow> Inl e
           | Inr fs \<Rightarrow> Inr (f # fs)))"



subsection \<open>Valid configurations\<close>

text \<open>
  The validation rules in the spec's words, for comparison with the code. A type name
  is one of DIMMER, RGB and RGBW, whatever the case of its letters. A fixture element is
  valid when its name is accepted, its start address and count are present and at least
  1, its type is present and a type name, and its channel count, when present and not
  negative, is at least the channel count of the type. A sender element is valid when
  its name is accepted, its fixtures are valid and its host parses as an address. A
  configuration is valid when its refresh rate, when present, is at least 1, and its
  senders are valid.
\<close>

definition named_type :: "string \<Rightarrow> FixtureType option" where
  "named_type t =
     map_of [(''DIMMER'', DIMMER), (''RGB'', RGB), (''RGBW'', RGBW)] (map to_upper t)"




text \<open>
  The error of an invalid configuration, by cause. The elements are read in document
  order and the first defect met decides: for a fixture element, its name, its start
  address, its count, a missing type, an unknown type, its channel count; for a sender
  element, its name, then its fixtures; for the configuration, the refresh rate, then the
  senders, and after all of them are read, the hosts.
\<close>

definition fixture_defect :: "(string \<Rightarrow> string \<Rightarrow> bool) \<Rightarrow> string \<times> 'fl xml_fixture \<Rightarrow> error option" where
  "fixture_defect verify x =
     (if \<not> verify (fst x) ''fixture'' then Some ptree_exception
      else if (case xml_start_address (snd x) of None \<Rightarrow> True | Some s \<Rightarrow> s < 1)
        then Some (user_error ''Fixture start address must be specified'')
      else if (case xml_fixture_count (snd x) of None \<Rightarrow> True | Some n \<Rightarrow> n < 1)
        then Some (user_error ''Fixture count must be specified'')
      else if (case xml_type (snd x) of None \<Rightarrow> True | Some t \<Rightarrow> t = [])
        then Some (user_error ''Fixture type must be specified'')
      else
        (case named_type (ptree_get (xml_type (snd x)) []) of
           None \<Rightarrow> Some (user_error ''Unknown fixture type'')
         | Some ty \<Rightarrow>
             (case xml_fixture_channels (snd x) of
                None \<Rightarrow> None
              | Some ch \<Rightarrow>
                  if 0 \<le> ch \<and> ch < type_value ty
                  then Some (user_error
                    ''Fixture channel count must be at least enough channels for current color mode'')
                  else None)))"




text \<open>
  What a consumer built from a valid configuration holds. A fixture keeps the start
  address less one, the count, the type named and the box; its channel stride is the
  channel count given, and the channel count of its type when none is given or a
  negative one. A sender keeps universe, host and port, each the default when absent.
  A computed sender has the parsed host with the port as its endpoint, the universe, and
  the fixtures that the call of \<^verbatim>\<open>compute_fixtures\<close> yields.
\<close>

definition reads_fixture :: "string \<times> 'fl xml_fixture \<Rightarrow> ('fl::zero) fixture \<Rightarrow> bool" where
  "reads_fixture x f \<longleftrightarrow>
     xml_start_address (snd x) = Some (startAddress f + 1)
     \<and> xml_fixture_count (snd x) = Some (fixtureCount f)
     \<and> (case xml_type (snd x) of None \<Rightarrow> False | Some t \<Rightarrow> named_type t = Some (fixture_type f))
     \<and> fixtureChannels f =
         (case xml_fixture_channels (snd x) of
            None \<Rightarrow> type_value (fixture_type f)
          | Some ch \<Rightarrow> if ch < 0 then type_value (fixture_type f) else ch)
     \<and> fixtureBox f =
         \<lparr>box_x = ptree_get (xml_x (snd x)) 0,
          box_y = ptree_get (xml_y (snd x)) 0,
          box_width = ptree_get (xml_width (snd x)) 0,
          box_height = ptree_get (xml_height (snd x)) 0,
          box_rotation = ptree_get (xml_rotation (snd x)) 0\<rparr>"



section \<open>Properties of the channel encoder\<close>

subsection \<open>RGBW\<close>

lemma min_uint8_unat: "unat (min_uint8 a b) = min (unat a) (unat b)"
  by (auto simp: min_uint8_def word_less_nat_alt min_def)

text \<open>
  C3: for every color, the RGBW case stores the four bytes \<open>(r - w, g - w, b - w, w)\<close> with
  \<open>w\<close> the least of the three channels; adding \<open>w\<close> back gives each channel again, as
  8-bit words and as numbers, so no subtraction wraps around and no sum overflows.
\<close>

theorem rgbw_encoding:
  "(let w = min_uint8 (min_uint8 (color_r c) (color_g c)) (color_b c)
    in encode RGBW c = [color_r c - w, color_g c - w, color_b c - w, w]
      \<and> unat w = min (unat (color_r c)) (min (unat (color_g c)) (unat (color_b c)))
      \<and> (color_r c - w) + w = color_r c
      \<and> (color_g c - w) + w = color_g c
      \<and> (color_b c - w) + w = color_b c
      \<and> unat (color_r c - w) + unat w = unat (color_r c)
      \<and> unat (color_g c - w) + unat w = unat (color_g c)
      \<and> unat (color_b c - w) + unat w = unat (color_b c))"
proof -
  define w where "w = min_uint8 (min_uint8 (color_r c) (color_g c)) (color_b c)"
  have wr: "w \<le> color_r c" and wg: "w \<le> color_g c" and wb: "w \<le> color_b c"
    unfolding w_def by (auto simp: min_uint8_def)
  have "unat w = min (unat (color_r c)) (min (unat (color_g c)) (unat (color_b c)))"
    unfolding w_def by (simp add: min_uint8_unat)
  moreover have "encode RGBW c = [color_r c - w, color_g c - w, color_b c - w, w]"
    unfolding w_def by (simp add: Let_def)
  moreover have "unat (color_r c - w) + unat w = unat (color_r c)"
    using wr by (simp add: unat_sub word_le_nat_alt)
  moreover have "unat (color_g c - w) + unat w = unat (color_g c)"
    using wg by (simp add: unat_sub word_le_nat_alt)
  moreover have "unat (color_b c - w) + unat w = unat (color_b c)"
    using wb by (simp add: unat_sub word_le_nat_alt)
  ultimately show ?thesis unfolding Let_def w_def [symmetric] by simp
qed

subsection \<open>The rounding function\<close>

text \<open>
  In the normal range the exponent found by halving or doubling is the binary exponent
  of the argument, so the rounded quotient is a significand of 53 bits. Some values of
  the rounding: 1/10 and -1/3 round to the doubles of those literals, and of the odd
  integers just above \<open>2 ^ 53\<close> one rounds down and the next one up, to the even
  significand.
\<close>

lemma halvings_bounds:
  "1 \<le> x \<Longrightarrow> x < 2 ^ Suc k \<Longrightarrow>
     0 \<le> halvings k x \<and> 2 ^ nat (halvings k x) \<le> x \<and> x < 2 * 2 ^ nat (halvings k x)"
proof (induction k arbitrary: x)
  case 0
  then show ?case by simp
next
  case (Suc k)
  show ?case
  proof (cases "x < 2")
    case True
    with Suc.prems show ?thesis by simp
  next
    case False
    then have "1 \<le> x / 2" by simp
    moreover from Suc.prems have "x / 2 < 2 ^ Suc k" by simp
    ultimately have IH: "0 \<le> halvings k (x / 2)" "2 ^ nat (halvings k (x / 2)) \<le> x / 2"
      "x / 2 < 2 * 2 ^ nat (halvings k (x / 2))"
      using Suc.IH [of "x / 2"] by simp_all
    from IH(1) have "nat (halvings k (x / 2) + 1) = Suc (nat (halvings k (x / 2)))" by simp
    with IH False show ?thesis by simp
  qed
qed

lemma doublings_ge_1: "1 \<le> y \<Longrightarrow> doublings k y = 0"
  by (cases k) simp_all

lemma doublings_bounds:
  "0 < x \<Longrightarrow> x < 1 \<Longrightarrow> 1 \<le> x * 2 ^ k \<Longrightarrow>
     0 \<le> doublings k x \<and> 1 \<le> x * 2 ^ nat (doublings k x) \<and> x * 2 ^ nat (doublings k x) < 2"
proof (induction k arbitrary: x)
  case 0
  then show ?case by simp
next
  case (Suc k)
  show ?case
  proof (cases "1 \<le> 2 * x")
    case True
    with Suc.prems show ?thesis by (simp add: doublings_ge_1)
  next
    case False
    then have "2 * x < 1" by simp
    moreover from Suc.prems have "0 < 2 * x" "1 \<le> 2 * x * 2 ^ k" by simp_all
    ultimately have IH: "0 \<le> doublings k (2 * x)" "1 \<le> 2 * x * 2 ^ nat (doublings k (2 * x))"
      "2 * x * 2 ^ nat (doublings k (2 * x)) < 2"
      using Suc.IH [of "2 * x"] by simp_all
    from IH(1) have "nat (doublings k (2 * x) + 1) = Suc (nat (doublings k (2 * x)))" by simp
    with IH Suc.prems show ?thesis by (simp add: mult.commute mult.left_commute)
  qed
qed

lemma exponent_bounds:
  fixes a :: rat
  assumes "1 \<le> a * 2 ^ M" and "a < 2 ^ Suc N"
  defines "e \<equiv> (if 1 \<le> a then halvings N a else - doublings M a)"
  shows "2 powi e \<le> a \<and> a < 2 powi (e + 1)"
proof (cases "1 \<le> a")
  case True
  from halvings_bounds [OF True assms(2)]
  have h: "0 \<le> halvings N a" "2 ^ nat (halvings N a) \<le> a" "a < 2 * 2 ^ nat (halvings N a)"
    by simp_all
  from h(1) have "(2 :: rat) powi halvings N a = 2 ^ nat (halvings N a)"
    by (simp add: power_int_def)
  moreover from h(1) have "(2 :: rat) powi (halvings N a + 1) = 2 * 2 ^ nat (halvings N a)"
    by (simp add: power_int_def nat_add_distrib)
  ultimately show ?thesis using True h by (simp add: e_def)
next
  case False
  then have lt: "a < 1" by simp
  have pos: "0 < a"
  proof (rule ccontr)
    assume "\<not> 0 < a"
    then have "a * 2 ^ M \<le> 0" by (simp add: mult_le_0_iff)
    with assms(1) show False by simp
  qed
  from doublings_bounds [OF pos lt assms(1)]
  have d: "0 \<le> doublings M a" "1 \<le> a * 2 ^ nat (doublings M a)"
    "a * 2 ^ nat (doublings M a) < 2" by simp_all
  define n where "n = nat (doublings M a)"
  have e: "e = - int n" using False d(1) by (simp add: e_def n_def)
  have n1: "1 \<le> n"
  proof (rule ccontr)
    assume "\<not> 1 \<le> n"
    then have "n = 0" by simp
    with d(2) lt show False by (simp add: n_def)
  qed
  have p1: "(2 :: rat) powi (- int n) = 1 / 2 ^ n"
    by (simp add: power_int_def field_simps)
  have p2: "(2 :: rat) powi (1 - int n) = 2 / 2 ^ n"
  proof -
    from n1 obtain m where m: "n = Suc m" by (cases n) auto
    then have "1 - int n = - int m" by simp
    then show ?thesis by (simp add: power_int_def m field_simps)
  qed
  from d(2,3) have "1 / 2 ^ n \<le> a" "a < 2 / 2 ^ n"
    unfolding n_def [symmetric] by (simp_all add: field_simps)
  then show ?thesis by (simp add: e p1 p2)
qed

lemma binary64_exponent_normal:
  assumes "1 \<le> \<bar>x\<bar> * 2 ^ 1022" and "\<bar>x\<bar> < 2 ^ Suc 1023"
  shows "2 powi binary64_exponent x \<le> \<bar>x\<bar> \<and> \<bar>x\<bar> < 2 powi (binary64_exponent x + 1)"
  unfolding binary64_exponent_def by (rule exponent_bounds [OF assms])

lemma binary64_known_values:
  "binary64 0 = 0"
  "binary64 1 = 1"
  "binary64 (1 / 10) = 3602879701896397 / 36028797018963968"
  "binary64 (- 1 / 3) = - 6004799503160661 / 18014398509481984"
  "binary64 9007199254740993 = 9007199254740992"
  "binary64 9007199254740995 = 9007199254740996"
  by code_simp+

subsection \<open>Rounding error of the dimmer formula\<close>

lemma round_half_even_error: "\<bar>of_int (round_half_even q) - q\<bar> \<le> 1 / 2"
proof -
  define f where "f = \<lfloor>q\<rfloor>"
  define d where "d = q - of_int f"
  have d: "0 \<le> d" "d < 1" unfolding d_def f_def by linarith+
  have q: "q = of_int f + d" by (simp add: d_def)
  have "round_half_even q = f \<and> d \<le> 1 / 2 \<or> round_half_even q = f + 1 \<and> 1 / 2 \<le> d"
    unfolding round_half_even_def Let_def f_def [symmetric] d_def [symmetric]
    by (cases "d < 1 / 2"; cases "1 / 2 < d") auto
  then show ?thesis
  proof
    assume "round_half_even q = f \<and> d \<le> 1 / 2"
    then show ?thesis using d by (simp add: q)
  next
    assume "round_half_even q = f + 1 \<and> 1 / 2 \<le> d"
    then show ?thesis using d by (simp add: q)
  qed
qed

lemma halvings_le: "x < 2 ^ Suc n \<Longrightarrow> halvings k x \<le> int n"
proof (induction k arbitrary: x n)
  case 0
  then show ?case by simp
next
  case (Suc k)
  show ?case
  proof (cases "x < 2")
    case True
    then show ?thesis by simp
  next
    case False
    with Suc.prems obtain m where n: "n = Suc m"
      by (cases n) auto
    from Suc.prems n have "x / 2 < 2 ^ Suc m" by simp
    from Suc.IH [OF this] False n show ?thesis by simp
  qed
qed

lemma doublings_nonneg: "0 \<le> doublings k x"
  by (induction k arbitrary: x) auto

lemma binary64_exponent_le: "\<bar>x\<bar> < 256 \<Longrightarrow> binary64_exponent x \<le> 7"
proof -
  assume "\<bar>x\<bar> < 256"
  then have "\<bar>x\<bar> < 2 ^ Suc 7" by simp
  from halvings_le [OF this] have "halvings 1023 \<bar>x\<bar> \<le> 7" by simp
  moreover have "- doublings 1022 \<bar>x\<bar> \<le> 7"
    using doublings_nonneg [of 1022 "\<bar>x\<bar>"] by simp
  ultimately show ?thesis by (simp add: binary64_exponent_def)
qed

lemma binary64_error:
  assumes "\<bar>x\<bar> < 256"
  shows "\<bar>binary64 x - x\<bar> \<le> 1 / 2 ^ 46"
proof (cases "x = 0")
  case True
  then show ?thesis by (simp add: binary64_def)
next
  case False
  define e where "e = binary64_exponent x"
  define u :: rat where "u = 2 powi (e - 52)"
  have upos: "0 < u" by (simp add: u_def)
  have "e - 52 \<le> - 45" using binary64_exponent_le [OF assms] by (simp add: e_def)
  then have "u \<le> 2 powi (- 45)"
    unfolding u_def by (intro power_int_increasing) auto
  then have ule: "u \<le> 1 / 2 ^ 45" by (simp add: power_int_minus field_simps)
  have "binary64 x - x = (of_int (round_half_even (x / u)) - x / u) * u"
    using upos False by (simp add: binary64_def Let_def e_def u_def field_simps)
  then have "\<bar>binary64 x - x\<bar> = \<bar>of_int (round_half_even (x / u)) - x / u\<bar> * u"
    using upos by (simp add: abs_mult)
  also have "\<dots> \<le> (1 / 2) * u"
    using round_half_even_error [of "x / u"] upos by (intro mult_right_mono) auto
  also have "\<dots> \<le> 1 / 2 ^ 46" using ule by simp
  finally show ?thesis .
qed

lemma literal_279: "binary64 (279 / 1000) = 5026017184145474 / 18014398509481984"
  and literal_547: "binary64 (547 / 1000) = 4926937992343323 / 9007199254740992"
  and literal_106: "binary64 (106 / 1000) = 7638104968020361 / 72057594037927936"
  by code_simp+

lemma double_of_uint8_range: "0 \<le> double_of_uint8 v \<and> double_of_uint8 v \<le> 255"
proof -
  have "unat v < 256" using unsigned_less [of v, where 'a = nat] by simp
  then have "unat v \<le> 255" by simp
  then have "(of_nat (unat v) :: rat) \<le> of_nat 255" by (subst of_nat_le_iff)
  moreover have "(0 :: rat) \<le> of_nat (unat v)" by (rule of_nat_0_le_iff)
  ultimately show ?thesis unfolding double_of_uint8_def by (simp only: of_nat_numeral)
qed

lemma binary64_error_small:
  "- 256 < x \<Longrightarrow> x < 256 \<Longrightarrow> binary64 x - x \<le> 1 / 70368744177664 \<and> x - binary64 x \<le> 1 / 70368744177664"
proof -
  assume "- 256 < x" "x < 256"
  then have "\<bar>x\<bar> < 256" by (simp add: abs_less_iff)
  from binary64_error [OF this] have "\<bar>binary64 x - x\<bar> \<le> 1 / 70368744177664" by simp
  then show ?thesis by linarith
qed

lemma dimmer_double_close:
  "\<bar>dimmer_double c
     - (279 / 1000 * double_of_uint8 (color_r c) + 547 / 1000 * double_of_uint8 (color_g c)
        + 106 / 1000 * double_of_uint8 (color_b c))\<bar> \<le> 1 / 1000000000000"
proof -
  define R where "R = double_of_uint8 (color_r c)"
  define G where "G = double_of_uint8 (color_g c)"
  define B where "B = double_of_uint8 (color_b c)"
  define a1 :: rat where "a1 = 5026017184145474 / 18014398509481984 * R"
  define a2 :: rat where "a2 = 4926937992343323 / 9007199254740992 * G"
  define a3 :: rat where "a3 = 7638104968020361 / 72057594037927936 * B"
  define p1 where "p1 = binary64 a1"
  define p2 where "p2 = binary64 a2"
  define p3 where "p3 = binary64 a3"
  define s1 where "s1 = binary64 (p1 + p2)"
  define s2 where "s2 = binary64 (s1 + p3)"
  have R: "0 \<le> R" "R \<le> 255" and G: "0 \<le> G" "G \<le> 255" and B: "0 \<le> B" "B \<le> 255"
    using double_of_uint8_range by (simp_all add: R_def G_def B_def)
  have b1: "- 256 < a1" "a1 < 256" using R unfolding a1_def by linarith+
  have b2: "- 256 < a2" "a2 < 256" using G unfolding a2_def by linarith+
  have b3: "- 256 < a3" "a3 < 256" using B unfolding a3_def by linarith+
  note e1 = binary64_error_small [OF b1, folded p1_def]
  note e2 = binary64_error_small [OF b2, folded p2_def]
  note e3 = binary64_error_small [OF b3, folded p3_def]
  have b4: "- 256 < p1 + p2" "p1 + p2 < 256"
    using e1 e2 R G unfolding a1_def a2_def by linarith+
  note e4 = binary64_error_small [OF b4, folded s1_def]
  have b5: "- 256 < s1 + p3" "s1 + p3 < 256"
    using e1 e2 e3 e4 R G B unfolding a1_def a2_def a3_def by linarith+
  note e5 = binary64_error_small [OF b5, folded s2_def]
  have "dimmer_double c = s2"
    unfolding dimmer_double_def double_add_def double_mul_def literal_279 literal_547 literal_106
      s2_def s1_def p1_def p2_def p3_def a1_def a2_def a3_def R_def G_def B_def ..
  moreover have "\<bar>s2 - (279 / 1000 * R + 547 / 1000 * G + 106 / 1000 * B)\<bar> \<le> 1 / 1000000000000"
    using e1 e2 e3 e4 e5 R G B unfolding a1_def a2_def a3_def by linarith
  ultimately show ?thesis by (simp add: R_def G_def B_def)
qed

lemma dimmer_close: "\<bar>dimmer_double c - dimmer_weighted_sum c\<bar> \<le> 1 / 1000000000000"
  using dimmer_double_close [of c] by (simp only: dimmer_weighted_sum_def double_of_uint8_def)

lemma dimmer_weighted_sum_range: "0 \<le> dimmer_weighted_sum c \<and> dimmer_weighted_sum c \<le> 23766 / 100"
proof -
  have "0 \<le> double_of_uint8 (color_r c) \<and> double_of_uint8 (color_r c) \<le> 255"
    "0 \<le> double_of_uint8 (color_g c) \<and> double_of_uint8 (color_g c) \<le> 255"
    "0 \<le> double_of_uint8 (color_b c) \<and> double_of_uint8 (color_b c) \<le> 255"
    by (rule double_of_uint8_range)+
  then show ?thesis unfolding dimmer_weighted_sum_def double_of_uint8_def by linarith
qed

lemma truncate_double_range:
  "0 \<le> truncate_double (dimmer_double c) \<and> truncate_double (dimmer_double c) \<le> 237"
proof -
  let ?s = "dimmer_double c"
  have s: "- 1 < ?s" "?s < 238"
    using dimmer_close [of c] dimmer_weighted_sum_range [of c] by linarith+
  show ?thesis
  proof (cases "0 \<le> ?s")
    case True
    then have "0 \<le> \<lfloor>?s\<rfloor>" by simp
    moreover have "\<lfloor>?s\<rfloor> < 238" using s by (simp add: floor_less_iff)
    ultimately show ?thesis using True by (simp add: truncate_double_def)
  next
    case False
    then have "\<lceil>?s\<rceil> = 0" using s by (intro ceiling_unique) auto
    then show ?thesis using False by (simp add: truncate_double_def)
  qed
qed

lemma unat_dimmer: "int (unat (uint8_of_double (dimmer_double c))) = truncate_double (dimmer_double c)"
proof -
  have "0 \<le> truncate_double (dimmer_double c)" "truncate_double (dimmer_double c) < 2 ^ 8"
    using truncate_double_range [of c] by simp_all
  then show ?thesis
    unfolding uint8_of_double_def by (simp add: unsigned_of_int take_bit_int_eq_self)
qed

text \<open>
  C10: for every color the dimmer byte is at most 237: the weights sum to 0.932, so the
  weighted sum is below 238 and stays there after rounding; full white encodes to 237, and
  no color encodes to 255.
\<close>

theorem dimmer_at_most_237:
  "unat (hd (encode DIMMER c)) \<le> 237
   \<and> encode DIMMER \<lparr>color_r = 255, color_g = 255, color_b = 255\<rparr> = [237]
   \<and> encode DIMMER c \<noteq> [255]"
proof -
  have le: "unat (uint8_of_double (dimmer_double c)) \<le> 237"
    using unat_dimmer [of c] truncate_double_range [of c] by linarith
  have "truncate_double (dimmer_double \<lparr>color_r = 255, color_g = 255, color_b = 255\<rparr>) = 237"
    by code_simp
  then have white: "encode DIMMER \<lparr>color_r = 255, color_g = 255, color_b = 255\<rparr> = [237]"
    by (simp add: uint8_of_double_def)
  have "uint8_of_double (dimmer_double c) \<noteq> 255"
  proof
    assume "uint8_of_double (dimmer_double c) = 255"
    then have "unat (uint8_of_double (dimmer_double c)) = 255" by simp
    with le show False by simp
  qed
  with le white show ?thesis by simp
qed

lemma weighted_sum_int:
  "1000 * dimmer_weighted_sum c =
     of_int (279 * int (unat (color_r c)) + 547 * int (unat (color_g c)) + 106 * int (unat (color_b c)))"
  by (simp add: dimmer_weighted_sum_def)

lemma weighted_sum_gap:
  assumes "of_int \<lfloor>dimmer_weighted_sum c\<rfloor> \<noteq> dimmer_weighted_sum c"
  shows "of_int \<lfloor>dimmer_weighted_sum c\<rfloor> + 1 / 1000 \<le> dimmer_weighted_sum c
     \<and> dimmer_weighted_sum c \<le> of_int \<lfloor>dimmer_weighted_sum c\<rfloor> + 999 / 1000"
proof -
  define E where "E = dimmer_weighted_sum c"
  define k where "k = \<lfloor>E\<rfloor>"
  define N where
    "N = 279 * int (unat (color_r c)) + 547 * int (unat (color_g c)) + 106 * int (unat (color_b c))"
  have N: "1000 * E = of_int N"
    unfolding E_def N_def by (rule weighted_sum_int)
  have kE: "of_int k \<le> E" "E < of_int k + 1" unfolding k_def by linarith+
  have "E \<noteq> of_int k" using assms by (auto simp: E_def k_def)
  with kE have "of_int k < E" by simp
  then have "(of_int (1000 * k) :: rat) < of_int N" unfolding N [symmetric] by simp
  then have "1000 * k < N" by (simp only: of_int_less_iff)
  then have "1000 * k + 1 \<le> N" by simp
  then have "(of_int (1000 * k + 1) :: rat) \<le> of_int N" by (simp only: of_int_le_iff)
  then have lo: "of_int k + 1 / 1000 \<le> E" unfolding N [symmetric] by simp
  from kE have "(of_int N :: rat) < of_int (1000 * k + 1000)" unfolding N [symmetric] by simp
  then have "N < 1000 * k + 1000" by (simp only: of_int_less_iff)
  then have "N \<le> 1000 * k + 999" by simp
  then have "(of_int N :: rat) \<le> of_int (1000 * k + 999)" by (simp only: of_int_le_iff)
  then have hi: "E \<le> of_int k + 999 / 1000" unfolding N [symmetric] by simp
  from lo hi show ?thesis by (simp add: E_def k_def)
qed

text \<open>
  C8 (as amended): for every color the dimmer byte is the double-precision value of the
  formula, truncated towards zero; it lies in [0, 255]; it equals the floor of the exact
  weighted sum whenever that sum is not an integer, and is that floor or one less when
  it is.
\<close>

theorem dimmer_truncated_double:
  "encode DIMMER c = [word_of_int (truncate_double (dimmer_double c))]
   \<and> 0 \<le> truncate_double (dimmer_double c) \<and> truncate_double (dimmer_double c) \<le> 255
   \<and> (of_int (dimmer_spec c) \<noteq> dimmer_weighted_sum c
        \<longrightarrow> truncate_double (dimmer_double c) = dimmer_spec c)
   \<and> (truncate_double (dimmer_double c) = dimmer_spec c
        \<or> truncate_double (dimmer_double c) = dimmer_spec c - 1)"
proof -
  define s where "s = dimmer_double c"
  define E where "E = dimmer_weighted_sum c"
  define k where "k = \<lfloor>E\<rfloor>"
  have close: "\<bar>s - E\<bar> \<le> 1 / 1000000000000"
    using dimmer_close [of c] by (simp add: s_def E_def)
  have E0: "0 \<le> E" using dimmer_weighted_sum_range [of c] by (simp add: E_def)
  then have k0: "0 \<le> k" by (simp add: k_def)
  have kE: "of_int k \<le> E" "E < of_int k + 1" unfolding k_def by linarith+
  have range: "0 \<le> truncate_double s \<and> truncate_double s \<le> 255"
    using truncate_double_range [of c] by (simp add: s_def)
  have gap: "truncate_double s = k" if "of_int k \<noteq> E"
  proof -
    from that weighted_sum_gap [of c]
    have "of_int k + 1 / 1000 \<le> E" "E \<le> of_int k + 999 / 1000"
      by (simp_all add: E_def k_def)
    with close have "of_int k \<le> s" "s < of_int k + 1" by linarith+
    then have "\<lfloor>s\<rfloor> = k" by (intro floor_unique)
    moreover have "0 \<le> s" using \<open>of_int k \<le> s\<close> k0 by (simp add: order_trans [of 0 "of_int k" s])
    ultimately show ?thesis by (simp add: truncate_double_def)
  qed
  have either: "truncate_double s = k \<or> truncate_double s = k - 1"
  proof (cases "of_int k = E")
    case False
    with gap show ?thesis by simp
  next
    case True
    with close have near: "of_int k - 1 / 1000000000000 \<le> s" "s \<le> of_int k + 1 / 1000000000000"
      by linarith+
    show ?thesis
    proof (cases "of_int k \<le> s")
      case True
      with near have "of_int k \<le> s" "s < of_int k + 1" by linarith+
      then have "\<lfloor>s\<rfloor> = k" by (intro floor_unique)
      moreover have "0 \<le> s" using True k0 by (simp add: order_trans [of 0 "of_int k" s])
      ultimately show ?thesis by (simp add: truncate_double_def)
    next
      case below: False
      show ?thesis
      proof (cases "0 \<le> s")
        case True
        from near below have "of_int k - 1 \<le> s" "s < of_int k" by linarith+
        then have "of_int (k - 1) \<le> s" "s < of_int (k - 1) + 1" by simp_all
        then have "\<lfloor>s\<rfloor> = k - 1" by (intro floor_unique)
        with True show ?thesis by (simp add: truncate_double_def)
      next
        case False
        with near have "(of_int k :: rat) < 1" by linarith
        then have "k < 1" by (simp only: of_int_less_1_iff)
        with k0 have "k = 0" by simp
        with near False have "- 1 < s" "s \<le> 0" by simp_all
        then have "\<lceil>s\<rceil> = 0" by (intro ceiling_unique) auto
        with False \<open>k = 0\<close> show ?thesis by (simp add: truncate_double_def)
      qed
    qed
  qed
  have "encode DIMMER c = [word_of_int (truncate_double s)]"
    by (simp add: uint8_of_double_def s_def)
  with range gap either show ?thesis
    unfolding dimmer_spec_def s_def [symmetric] E_def [symmetric] k_def [symmetric] by blast
qed

theorem dimmer_truncated_double_witness:
  "of_int (dimmer_spec \<lparr>color_r = 1, color_g = 0, color_b = 0\<rparr>)
     \<noteq> dimmer_weighted_sum \<lparr>color_r = 1, color_g = 0, color_b = 0\<rparr>
   \<and> truncate_double (dimmer_double \<lparr>color_r = 1, color_g = 0, color_b = 0\<rparr>) = 0
   \<and> dimmer_spec \<lparr>color_r = 1, color_g = 0, color_b = 0\<rparr> = 0"
proof -
  have ws: "dimmer_weighted_sum \<lparr>color_r = 1, color_g = 0, color_b = 0\<rparr> = 279 / 1000"
    by (simp add: dimmer_weighted_sum_def)
  have "\<lfloor>279 / 1000 :: rat\<rfloor> = 0" by (intro floor_unique) simp_all
  then have sp: "dimmer_spec \<lparr>color_r = 1, color_g = 0, color_b = 0\<rparr> = 0"
    unfolding dimmer_spec_def ws .
  from ws sp dimmer_truncated_double [of "\<lparr>color_r = 1, color_g = 0, color_b = 0\<rparr>"]
  show ?thesis by simp
qed

text \<open>
  At the color (19, 251, 117) the exact weighted sum is 155, while the products and sums
  rounded to double precision give a value just below 155, which truncates to 154.
\<close>

theorem dimmer_floor_counterexample:
  "encode DIMMER \<lparr>color_r = 19, color_g = 251, color_b = 117\<rparr> = [154]
   \<and> dimmer_spec \<lparr>color_r = 19, color_g = 251, color_b = 117\<rparr> = 155"
proof -
  have "truncate_double (dimmer_double \<lparr>color_r = 19, color_g = 251, color_b = 117\<rparr>) = 154"
    by code_simp
  then have "encode DIMMER \<lparr>color_r = 19, color_g = 251, color_b = 117\<rparr> = [154]"
    by (simp add: uint8_of_double_def)
  moreover have "dimmer_spec \<lparr>color_r = 19, color_g = 251, color_b = 117\<rparr> = 155"
    by (simp add: dimmer_spec_def dimmer_weighted_sum_def)
  ultimately show ?thesis by simp
qed

section \<open>Properties of the packetizer\<close>

lemma header_512:
  "header u 512 = [65, 114, 116, 45, 78, 101, 116, 0, 0, 80, 0, 14, 0, 0,
     word_of_int (u AND 255), word_of_int (drop_bit 8 u AND 255), 2, 0]"
  by (simp add: header_def Let_def)

lemma length_header: "length (header u n) = 18"
  by (simp add: header_def Let_def)

lemma buffer_append:
  assumes "length data = 512"
  shows "buffer u data 512 = header u 512 @ data"
proof (rule nth_equalityI)
  show "length (buffer u data 512) = length (header u 512 @ data)"
    using assms by (simp add: buffer_def length_header)
next
  fix i
  assume "i < length (buffer u data 512)"
  then have i: "i < 530" by (simp add: buffer_def)
  then have "buffer u data 512 ! i = (if i < 18 then header u 512 ! i else data ! (i - 18))"
    unfolding buffer_def by (auto simp del: upt_Suc simp add: nth_map_upt)
  then show "buffer u data 512 ! i = (header u 512 @ data) ! i"
    by (simp add: nth_append length_header)
qed

text \<open>
  C1: for every computed sender (whatever its fixtures, none included) and every 512-byte
  universe buffer, the datagram handed to the socket has 530 bytes: the ASCII string
  "Art-Net" and a zero byte, the OpCode bytes 0x00 0x50, the version bytes 0x00 0x0E, the
  sequence and physical bytes 0, the universe low byte and high byte, the length bytes
  0x02 0x00, and then the universe buffer unchanged.
\<close>

theorem artnet_packet_layout:
  assumes "length data = 512"
  shows "send_dmx_data send_fails sender data 512 wire =
      (if send_fails wire (endpoint sender) (buffer (computed_universe sender) data 512)
       then Some io_error else None,
       wire @ [(endpoint sender, buffer (computed_universe sender) data 512)])
    \<and> length (buffer (computed_universe sender) data 512) = 530
    \<and> buffer (computed_universe sender) data 512 =
        map of_char ''Art-Net'' @ [0]
        @ [0, 80] @ [0, 14] @ [0] @ [0]
        @ [word_of_int (computed_universe sender AND 255),
           word_of_int (drop_bit 8 (computed_universe sender) AND 255)]
        @ [2, 0]
        @ data"
proof -
  have "send_dmx_data send_fails sender data 512 wire =
      (if send_fails wire (endpoint sender) (buffer (computed_universe sender) data 512)
       then Some io_error else None,
       wire @ [(endpoint sender, buffer (computed_universe sender) data 512)])"
    using assms by (simp add: send_dmx_data_def Let_def)
  moreover have "length (buffer (computed_universe sender) data 512) = 530"
    by (simp add: buffer_def)
  moreover have "buffer (computed_universe sender) data 512 =
        map of_char ''Art-Net'' @ [0]
        @ [0, 80] @ [0, 14] @ [0] @ [0]
        @ [word_of_int (computed_universe sender AND 255),
           word_of_int (drop_bit 8 (computed_universe sender) AND 255)]
        @ [2, 0]
        @ data"
    by (simp add: buffer_append [OF assms] header_512)
  ultimately show ?thesis by (intro conjI)
qed

theorem artnet_packet_layout_witness:
  "length (replicate 512 (7 :: uint8_t)) = 512
   \<and> send_dmx_data (\<lambda>w e b. False)
        \<lparr>endpoint = (1 :: nat, 6454), computed_universe = 258, computed_fixtures = ([] :: unit computed_fixture list)\<rparr>
        (replicate 512 7) 512 []
      = (None, [((1, 6454),
           [65, 114, 116, 45, 78, 101, 116, 0, 0, 80, 0, 14, 0, 0, 2, 1, 2, 0] @ replicate 512 7)])"
proof -
  have len: "length (replicate 512 (7 :: uint8_t)) = 512" by simp
  from artnet_packet_layout [OF len, of "\<lambda>w e b. False"
      "\<lparr>endpoint = (1 :: nat, 6454), computed_universe = 258, computed_fixtures = ([] :: unit computed_fixture list)\<rparr>" "[]"]
  show ?thesis by simp
qed

section \<open>Properties of the universe buffer\<close>

lemma store_frame:
  "length (dmx_array (store m a v)) = length (dmx_array m)
   \<and> (\<forall>i < length (dmx_array m). int i \<noteq> a \<longrightarrow> dmx_array (store m a v) ! i = dmx_array m ! i)"
  by (auto simp: store_def)

lemma store_all_frame:
  "length (dmx_array (store_all m a vs)) = length (dmx_array m)
   \<and> (\<forall>i < length (dmx_array m). \<not> (a \<le> int i \<and> int i < a + int (length vs))
        \<longrightarrow> dmx_array (store_all m a vs) ! i = dmx_array m ! i)"
proof (induction vs arbitrary: m a)
  case Nil
  then show ?case by simp
next
  case (Cons v vs)
  note s = store_frame [of m a v]
  note IH = Cons.IH [of "store m a v" "a + 1"]
  show ?case
  proof (intro conjI allI impI)
    show "length (dmx_array (store_all m a (v # vs))) = length (dmx_array m)"
      using s IH by simp
  next
    fix i
    assume i: "i < length (dmx_array m)"
      and out: "\<not> (a \<le> int i \<and> int i < a + int (length (v # vs)))"
    from out have "int i \<noteq> a" by auto
    with s i have "dmx_array (store m a v) ! i = dmx_array m ! i" by simp
    moreover from out have "\<not> (a + 1 \<le> int i \<and> int i < a + 1 + int (length vs))" by auto
    with IH i s have "dmx_array (store_all (store m a v) (a + 1) vs) ! i = dmx_array (store m a v) ! i"
      by simp
    ultimately show "dmx_array (store_all m a (v # vs)) ! i = dmx_array m ! i" by simp
  qed
qed


lemma length_encode: "int (length (encode t c)) = type_value t"
  by (cases t) (simp_all add: Let_def)

lemma write_fixtures_frame:
  "length (dmx_array (write_fixtures av frame m fs)) = length (dmx_array m)
   \<and> (\<forall>i < length (dmx_array m). (\<forall>f \<in> set fs. \<not> written f i)
        \<longrightarrow> dmx_array (write_fixtures av frame m fs) ! i = dmx_array m ! i)"
proof (induction fs arbitrary: m)
  case Nil
  then show ?case by simp
next
  case (Cons f fs)
  note f1 = store_all_frame [of m "address f" "encode (computed_type f) (av frame (rectangle f))",
      unfolded length_encode, folded write_fixture_def]
  note f2 = Cons.IH [of "write_fixture av frame m f"]
  show ?case
  proof (intro conjI allI impI)
    show "length (dmx_array (write_fixtures av frame m (f # fs))) = length (dmx_array m)"
      using f1 f2 by simp
  next
    fix i
    assume i: "i < length (dmx_array m)" and out: "\<forall>g \<in> set (f # fs). \<not> written g i"
    then have "dmx_array (write_fixtures av frame (write_fixture av frame m f) fs) ! i
        = dmx_array (write_fixture av frame m f) ! i"
      using f1 f2 by simp
    moreover have "dmx_array (write_fixture av frame m f) ! i = dmx_array m ! i"
      using f1 i out by (simp add: written_def)
    ultimately show "dmx_array (write_fixtures av frame m (f # fs)) ! i = dmx_array m ! i"
      by simp
  qed
qed


lemma length_universe_buffer: "length (dmx_array (universe_buffer av frame s)) = 512"
  using write_fixtures_frame [of av frame "\<lparr>dmx_array = replicate 512 0, overrun = []\<rparr>"
      "computed_fixtures s"]
  by (simp add: universe_buffer_def)



text \<open>
  An RGBW fixture at address 510 writes its first two bytes into the array and the other
  two beyond it.
\<close>

lemma universe_buffer_beyond_array:
  "universe_buffer (\<lambda>frame rect. \<lparr>color_r = 255, color_g = 200, color_b = 100\<rparr>) ()
      \<lparr>endpoint = (1 :: nat, 6454), computed_universe = 0,
       computed_fixtures = [\<lparr>computed_type = RGBW, address = 510, rectangle = ()\<rparr>]\<rparr>
   = \<lparr>dmx_array = replicate 510 0 @ [155, 100], overrun = [(512, 0), (513, 100)]\<rparr>"
  by code_simp

section \<open>Properties of construction\<close>

lemma new_artnet_consumer_Inr:
  "new_artnet_consumer fs cf cfg = Inr c \<Longrightarrow>
     config c = cfg \<and> last_frame c = None \<and> \<not> abort_request c \<and> \<not> thread_joinable c
     \<and> compute_senders_loop fs cf (senders cfg) [] = Inr (computed_senders c)"
  by (auto simp: new_artnet_consumer_def compute_senders_def split: sum.splits)

lemma fixture_type_of_named: "fixture_type_of t = named_type t"
  by (simp add: fixture_type_of_def named_type_def iequals_def to_upper_def)

lemma named_type_Nil: "named_type [] = None"
  by (simp add: named_type_def)

lemma get_fixture_ptree_defect:
  "(case get_fixture_ptree verify x of
      Inl e \<Rightarrow> fixture_defect verify x = Some e
    | Inr f \<Rightarrow> fixture_defect verify x = None \<and> reads_fixture x f)"
  unfolding get_fixture_ptree_def fixture_defect_def reads_fixture_def Let_def
    fixture_type_of_named ptree_get_def
  by (auto split: option.splits simp: named_type_Nil)









lemma int_value_id: "- 2147483648 \<le> v \<Longrightarrow> v < 2147483648 \<Longrightarrow> int_value v = v"
  unfolding int_value_def by (rule signed_take_bit_int_eq_self) simp_all





section \<open>Properties of the geometry compiler\<close>

text \<open>
  The vector the loops build: for an accepted fixture element with start address \<open>s\<close>
  and count \<open>n\<close>, whose last address is inside the range of \<^verbatim>\<open>int\<close>, it holds \<open>n\<close> computed
  fixtures for the element, in the order of their index \<open>i\<close>, at the addresses
  \<open>(s - 1) + i * c\<close> for the channel stride \<open>c\<close>. Beyond the range the address wraps around.
\<close>

lemma compute_fixtures_loop_append:
  "fixtures sd = pre @ f # post \<Longrightarrow>
     compute_fixtures_loop cr sd =
       concat (map (instances cr) pre) @ instances cr f @ concat (map (instances cr) post)"
  by (simp add: compute_fixtures_loop_def)

lemma instances_in_range:
  assumes c: "0 \<le> fixtureChannels f" and s: "0 \<le> startAddress f"
    and r: "startAddress f + (fixtureCount f - 1) * fixtureChannels f < 2147483648"
  shows "instances cr f =
     map (\<lambda>i. \<lparr>computed_type = fixture_type f,
               address = startAddress f + int i * fixtureChannels f,
               rectangle = cr (fixtureBox f) (int i) (fixtureCount f)\<rparr>)
       [0..<nat (fixtureCount f)]"
  unfolding instances_def
proof (rule map_cong [OF refl])
  fix i
  assume "i \<in> set [0..<nat (fixtureCount f)]"
  then have "int i \<le> fixtureCount f - 1" by auto
  then have "int i * fixtureChannels f \<le> (fixtureCount f - 1) * fixtureChannels f"
    using c by (rule mult_right_mono)
  moreover have "0 \<le> int i * fixtureChannels f" using c by simp
  ultimately have b: "0 \<le> int i * fixtureChannels f" "int i * fixtureChannels f < 2147483648"
    "0 \<le> startAddress f + int i * fixtureChannels f"
    "startAddress f + int i * fixtureChannels f < 2147483648"
    using s r by linarith+
  from b have "int_value (int i * fixtureChannels f) = int i * fixtureChannels f"
    by (intro int_value_id) linarith+
  moreover from b have "int_value (startAddress f + int i * fixtureChannels f)
      = startAddress f + int i * fixtureChannels f"
    by (intro int_value_id) linarith+
  ultimately show "\<lparr>computed_type = fixture_type f,
      address = int_value (startAddress f + int_value (int i * fixtureChannels f)),
      rectangle = cr (fixtureBox f) (int i) (fixtureCount f)\<rparr>
    = \<lparr>computed_type = fixture_type f,
       address = startAddress f + int i * fixtureChannels f,
       rectangle = cr (fixtureBox f) (int i) (fixtureCount f)\<rparr>"
    by simp
qed

lemma compute_fixtures_loop_addresses:
  assumes "get_fixture_ptree verify (name, xf) = Inr f"
    and "xml_start_address xf = Some s"
    and "xml_fixture_count xf = Some n"
    and "fixtures sd = pre @ f # post"
    and "(s - 1) + (n - 1) * fixtureChannels f < 2147483648"
  shows "1 \<le> s \<and> 1 \<le> n
    \<and> fixtureChannels f =
        (case xml_fixture_channels xf of
           None \<Rightarrow> type_value (fixture_type f)
         | Some ch \<Rightarrow> if ch < 0 then type_value (fixture_type f) else ch)
    \<and> compute_fixtures_loop compute_rect sd =
        concat (map (instances compute_rect) pre)
        @ map (\<lambda>i. \<lparr>computed_type = fixture_type f,
                    address = (s - 1) + int i * fixtureChannels f,
                    rectangle = compute_rect (fixtureBox f) (int i) n\<rparr>) [0..<nat n]
        @ concat (map (instances compute_rect) post)"
proof -
  from get_fixture_ptree_defect [of verify "(name, xf)"] assms(1)
  have rf: "reads_fixture (name, xf) f" and nd: "fixture_defect verify (name, xf) = None" by simp_all
  from rf assms(2,3) have sa: "startAddress f = s - 1" and fc: "fixtureCount f = n"
    and ch: "fixtureChannels f =
        (case xml_fixture_channels xf of
           None \<Rightarrow> type_value (fixture_type f)
         | Some ch \<Rightarrow> if ch < 0 then type_value (fixture_type f) else ch)"
    by (simp_all add: reads_fixture_def)
  from nd assms(2,3) have s: "1 \<le> s" and n: "1 \<le> n"
    by (auto simp: fixture_defect_def split: if_splits)
  have tv: "0 \<le> type_value (fixture_type f)" by (cases "fixture_type f") simp_all
  have c0: "0 \<le> fixtureChannels f"
    unfolding ch using tv by (auto split: option.splits)
  have "instances compute_rect f =
      map (\<lambda>i. \<lparr>computed_type = fixture_type f,
                address = (s - 1) + int i * fixtureChannels f,
                rectangle = compute_rect (fixtureBox f) (int i) n\<rparr>) [0..<nat n]"
    using instances_in_range [of f compute_rect] c0 s assms(5) by (simp add: sa fc)
  with compute_fixtures_loop_append [OF assms(4), of compute_rect] s n ch
  show ?thesis by simp
qed

lemma instances_beyond_int:
  "map address (instances (\<lambda>b i n. ())
      \<lparr>fixture_type = RGB, startAddress = 0, fixtureCount = 3, fixtureChannels = 1073741824,
       fixtureBox = \<lparr>box_x = 0 :: rat, box_y = 0, box_width = 0, box_height = 0, box_rotation = 0\<rparr>\<rparr>)
   = [0, 1073741824, - 2147483648]"
  by (simp add: instances_def int_value_def numeral_3_eq_3 signed_take_bit_eq_take_bit_shift take_bit_eq_mod)

lemma compute_senders_idem:
  assumes "compute_senders fs cf c = Inr c'"
  shows "compute_senders fs cf c' = Inr c'"
proof -
  from assms have "config c' = config c"
    and "compute_senders_loop fs cf (senders (config c)) [] = Inr (computed_senders c')"
    by (auto simp: compute_senders_def split: sum.splits)
  then show ?thesis by (simp add: compute_senders_def)
qed

text \<open>
  C2: for a sender with one RGB fixture element, start address 1 and count 2, the
  element is read as start address 0 with stride 3, and the loops of
  \<^verbatim>\<open>compute_fixtures\<close> build the two computed fixtures at the addresses 0 and 3, in
  order. This vector is what the function would have to return; its \<^verbatim>\<open>return\<close> statement
  names the function instead.
\<close>

theorem compute_fixtures_loop_example:
  "get_fixtures_ptree (\<lambda>name expected. name = expected) [(''fixture'',
      \<lparr>xml_start_address = Some 1, xml_fixture_count = Some 2, xml_type = Some ''RGB'',
       xml_fixture_channels = None, xml_x = None, xml_y = None,
       xml_width = (None :: rat option), xml_height = None, xml_rotation = None\<rparr>)]
    = Inr [\<lparr>fixture_type = RGB, startAddress = 0, fixtureCount = 2, fixtureChannels = 3,
           fixtureBox = \<lparr>box_x = 0, box_y = 0, box_width = 0, box_height = 0, box_rotation = 0\<rparr>\<rparr>]
   \<and> compute_fixtures_loop (\<lambda>b i n. (i, n))
        \<lparr>universe = 0, host = ''127.0.0.1'', port = 6454,
         fixtures = [\<lparr>fixture_type = RGB, startAddress = 0, fixtureCount = 2, fixtureChannels = 3,
           fixtureBox = \<lparr>box_x = 0 :: rat, box_y = 0, box_width = 0, box_height = 0, box_rotation = 0\<rparr>\<rparr>]\<rparr>
      = [\<lparr>computed_type = RGB, address = 0, rectangle = (0, 2)\<rparr>,
         \<lparr>computed_type = RGB, address = 3, rectangle = (1, 2)\<rparr>]"
  by (simp add: get_fixture_ptree_def ptree_get_def fixture_type_of_def iequals_def
      to_upper_def Let_def compute_fixtures_loop_def instances_def numeral_2_eq_2 int_value_id)

section \<open>Properties of the frame mailbox\<close>

lemma sends_result:
  "sends ds c =
     (replicate (length ds) (Ready True),
      c\<lparr>last_frame := (if ds = [] then last_frame c else snd (last ds))\<rparr>)"
proof (induction ds arbitrary: c)
  case Nil
  then show ?case by simp
next
  case (Cons d ds)
  obtain field frame where d: "d = (field, frame)" by (cases d)
  show ?case by (simp add: d Cons.IH send_def)
qed

lemma fold_deliver:
  "fold apply_event (map (\<lambda>d. Deliver (snd d)) ds) c =
     c\<lparr>last_frame := (if ds = [] then last_frame c else snd (last ds))\<rparr>"
  by (induction ds arbitrary: c) (simp_all add: send_def)

text \<open>
  C6: after any finite sequence of calls of \<^verbatim>\<open>send\<close>, every call has returned a future
  that is ready with \<open>True\<close>, nothing but \<open>last_frame\<close> has changed, and \<open>last_frame\<close> is
  the frame of the last call (what it was before, when there was no call; the empty frame
  in a new consumer). A pacing iteration that follows these deliveries reads that one
  frame and sends nothing for the earlier ones.
\<close>

theorem mailbox_latest_wins:
  assumes "\<not> abort_request c"
  shows "sends ds c =
      (replicate (length ds) (Ready True),
       c\<lparr>last_frame := (if ds = [] then last_frame c else snd (last ds))\<rparr>)
    \<and> (case new_artnet_consumer from_string compute_fixtures cfg of
          Inl e \<Rightarrow> True
        | Inr c0 \<Rightarrow> last_frame (c0 :: ('fl, 'addr, 'rect, 'frame) artnet_consumer) = None)
    \<and> pacing_thread average_color send_fails [map (\<lambda>d. Deliver (snd d)) ds] c w =
        (snd (sends ds c), pacing_iteration average_color send_fails (snd (sends ds c)) w)
    \<and> pacing_iteration average_color send_fails (snd (sends ds c)) w =
        (case (if ds = [] then last_frame c else snd (last ds)) of
           None \<Rightarrow> w
         | Some frame \<Rightarrow>
            (case send_computed_senders average_color send_fails (computed_senders c) frame (sent w) of
               (None, wire') \<Rightarrow> w\<lparr>sent := wire'\<rparr>
             | (Some e, wire') \<Rightarrow> w\<lparr>sent := wire', logged := logged w @ [e]\<rparr>))"
proof -
  have new: "(case new_artnet_consumer from_string compute_fixtures cfg of
          Inl e \<Rightarrow> True
        | Inr c0 \<Rightarrow> last_frame (c0 :: ('fl, 'addr, 'rect, 'frame) artnet_consumer) = None)"
    by (auto split: sum.splits dest: new_artnet_consumer_Inr)
  have thread: "pacing_thread average_color send_fails [map (\<lambda>d. Deliver (snd d)) ds] c w =
        (snd (sends ds c), pacing_iteration average_color send_fails (snd (sends ds c)) w)"
    using assms by (simp add: fold_deliver sends_result Let_def)
  have iter: "pacing_iteration average_color send_fails (snd (sends ds c)) w =
        (case (if ds = [] then last_frame c else snd (last ds)) of
           None \<Rightarrow> w
         | Some frame \<Rightarrow>
            (case send_computed_senders average_color send_fails (computed_senders c) frame (sent w) of
               (None, wire') \<Rightarrow> w\<lparr>sent := wire'\<rparr>
             | (Some e, wire') \<Rightarrow> w\<lparr>sent := wire', logged := logged w @ [e]\<rparr>))"
    by (simp add: sends_result pacing_iteration_def split: option.splits)
  from sends_result new thread iter show ?thesis by (intro conjI)
qed

theorem mailbox_latest_wins_witness:
  "\<not> abort_request \<lparr>config = \<lparr>refreshRate = 10, senders = ([] :: rat sender list)\<rparr>,
       computed_senders = ([] :: (nat, unit) computed_sender list),
       last_frame = (None :: nat option), abort_request = False, thread_joinable = True\<rparr>
   \<and> sends [((), Some 1), ((), Some 2), ((), Some 3)]
        \<lparr>config = \<lparr>refreshRate = 10, senders = ([] :: rat sender list)\<rparr>,
         computed_senders = ([] :: (nat, unit) computed_sender list),
         last_frame = (None :: nat option), abort_request = False, thread_joinable = True\<rparr>
      = ([Ready True, Ready True, Ready True],
         \<lparr>config = \<lparr>refreshRate = 10, senders = []\<rparr>, computed_senders = [],
          last_frame = Some 3, abort_request = False, thread_joinable = True\<rparr>)"
  (is "\<not> abort_request ?c \<and> sends ?ds ?c = ?res")
proof -
  have a: "\<not> abort_request ?c" by simp
  from mailbox_latest_wins [OF a, THEN conjunct1, of ?ds]
  have "sends ?ds ?c = ?res" by (simp add: numeral_3_eq_3)
  with a show ?thesis by (rule conjI)
qed

section \<open>Properties of the pacing loop\<close>

lemma send_computed_sender_cases:
  assumes "send_computed_sender av sf s frame wire = (r, wire')"
  shows "\<exists>buf. wire' = wire @ [(endpoint s, buf)] \<and> (r = None \<or> r = Some io_error)"
  using assms length_universe_buffer [of av frame s]
  by (auto simp: send_computed_sender_def send_dmx_data_def Let_def split: if_splits)

lemma send_computed_senders_endpoints:
  "send_computed_senders av sf pre frame wire = (None, w1) \<Longrightarrow>
     map fst w1 = map fst wire @ map endpoint pre"
proof (induction pre arbitrary: wire)
  case Nil
  then show ?case by simp
next
  case (Cons s pre)
  obtain r w' where one: "send_computed_sender av sf s frame wire = (r, w')"
    by (cases "send_computed_sender av sf s frame wire")
  with Cons.prems have r: "r = None" and rest: "send_computed_senders av sf pre frame w' = (None, w1)"
    by (auto split: option.splits)
  from send_computed_sender_cases [OF one] r obtain buf where "w' = wire @ [(endpoint s, buf)]"
    by auto
  with Cons.IH [OF rest] show ?case by simp
qed

lemma send_computed_senders_append:
  "send_computed_senders av sf pre frame wire = (None, w1) \<Longrightarrow>
     send_computed_senders av sf (pre @ ss) frame wire = send_computed_senders av sf ss frame w1"
proof (induction pre arbitrary: wire)
  case Nil
  then show ?case by simp
next
  case (Cons s pre)
  obtain r w' where one: "send_computed_sender av sf s frame wire = (r, w')"
    by (cases "send_computed_sender av sf s frame wire")
  with Cons.prems have r: "r = None" and rest: "send_computed_senders av sf pre frame w' = (None, w1)"
    by (auto split: option.splits)
  from Cons.IH [OF rest] one r show ?case by simp
qed

text \<open>
  C5 (as amended): the senders are served in order, and the first transport error ends
  the iteration: the datagrams of the senders before the failing one and the failing
  datagram have been handed to the socket, none for the senders after it; the error is
  logged, the loop is not left, and the next iteration runs.
\<close>

theorem failing_send_ends_iteration:
  assumes "computed_senders c = pre @ s # post"
    and "last_frame c = Some frame"
    and "\<not> abort_request c"
    and "send_computed_senders average_color send_fails pre frame (sent w) = (None, w1)"
    and "send_computed_sender average_color send_fails s frame w1 = (Some io_error, w2)"
  shows "send_computed_senders average_color send_fails (computed_senders c) frame (sent w)
      = (Some io_error, w2)
    \<and> map fst w2 = map fst (sent w) @ map endpoint pre @ [endpoint s]
    \<and> pacing_iteration average_color send_fails c w
      = w\<lparr>sent := w2, logged := logged w @ [io_error]\<rparr>
    \<and> pacing_thread average_color send_fails ([] # rest) c w
      = pacing_thread average_color send_fails rest c (w\<lparr>sent := w2, logged := logged w @ [io_error]\<rparr>)"
proof -
  have all: "send_computed_senders average_color send_fails (computed_senders c) frame (sent w)
      = (Some io_error, w2)"
    using send_computed_senders_append [OF assms(4), of "s # post"] assms(1,5) by simp
  from send_computed_sender_cases [OF assms(5)] obtain buf where "w2 = w1 @ [(endpoint s, buf)]"
    by auto
  with send_computed_senders_endpoints [OF assms(4)]
  have eps: "map fst w2 = map fst (sent w) @ map endpoint pre @ [endpoint s]" by simp
  have iter: "pacing_iteration average_color send_fails c w
      = w\<lparr>sent := w2, logged := logged w @ [io_error]\<rparr>"
    using all assms(2) by (simp add: pacing_iteration_def)
  have thread: "pacing_thread average_color send_fails ([] # rest) c w
      = pacing_thread average_color send_fails rest c (w\<lparr>sent := w2, logged := logged w @ [io_error]\<rparr>)"
    using assms(3) iter by simp
  from all eps iter thread show ?thesis by (intro conjI)
qed

theorem failing_send_ends_iteration_witness:
  "last_frame \<lparr>config = \<lparr>refreshRate = 10, senders = ([] :: rat sender list)\<rparr>,
       computed_senders =
         [\<lparr>endpoint = (1 :: nat, 6454), computed_universe = 0, computed_fixtures = ([] :: unit computed_fixture list)\<rparr>,
          \<lparr>endpoint = (2, 6454), computed_universe = 1, computed_fixtures = []\<rparr>],
       last_frame = Some (), abort_request = False, thread_joinable = True\<rparr> = Some ()
   \<and> pacing_iteration (\<lambda>frame rect. \<lparr>color_r = 0, color_g = 0, color_b = 0\<rparr>)
        (\<lambda>wire ep buf. fst ep = 1)
        \<lparr>config = \<lparr>refreshRate = 10, senders = ([] :: rat sender list)\<rparr>,
         computed_senders =
           [\<lparr>endpoint = (1 :: nat, 6454), computed_universe = 0, computed_fixtures = ([] :: unit computed_fixture list)\<rparr>,
            \<lparr>endpoint = (2, 6454), computed_universe = 1, computed_fixtures = []\<rparr>],
         last_frame = Some (), abort_request = False, thread_joinable = True\<rparr>
        \<lparr>sent = [], logged = []\<rparr>
      = \<lparr>sent = [((1, 6454), buffer 0 (replicate 512 0) 512)], logged = [io_error]\<rparr>"
  (is "last_frame ?c = Some () \<and> pacing_iteration ?av ?sf ?c ?w = ?w'")
proof -
  let ?s1 = "\<lparr>endpoint = (1 :: nat, 6454), computed_universe = 0, computed_fixtures = ([] :: unit computed_fixture list)\<rparr>"
  let ?s2 = "\<lparr>endpoint = (2 :: nat, 6454), computed_universe = 1, computed_fixtures = ([] :: unit computed_fixture list)\<rparr>"
  have a1: "computed_senders ?c = [] @ ?s1 # [?s2]" by simp
  have a2: "last_frame ?c = Some ()" by simp
  have a3: "\<not> abort_request ?c" by simp
  have a4: "send_computed_senders ?av ?sf [] () (sent ?w) = (None, [])" by simp
  have a5: "send_computed_sender ?av ?sf ?s1 () [] =
      (Some io_error, [((1, 6454), buffer 0 (replicate 512 0) 512)])"
    by (simp add: send_computed_sender_def universe_buffer_def send_dmx_data_def Let_def)
  from failing_send_ends_iteration [OF a1 a2 a3 a4 a5, of "[]"]
  have "pacing_iteration ?av ?sf ?c ?w = ?w'" by simp
  with a2 show ?thesis by (rule conjI)
qed

text \<open>
  With two senders and a transport that fails for the first endpoint, one iteration
  hands a datagram to the socket for the first endpoint only.
\<close>

theorem failing_send_skips_rest_counterexample:
  "map endpoint (computed_senders
      \<lparr>config = \<lparr>refreshRate = 10, senders = ([] :: rat sender list)\<rparr>,
       computed_senders =
         [\<lparr>endpoint = (1 :: nat, 6454), computed_universe = 0, computed_fixtures = ([] :: unit computed_fixture list)\<rparr>,
          \<lparr>endpoint = (2, 6454), computed_universe = 1, computed_fixtures = []\<rparr>],
       last_frame = Some (), abort_request = False, thread_joinable = True\<rparr>)
     = [(1, 6454), (2, 6454)]
   \<and> map fst (sent (pacing_iteration (\<lambda>frame rect. \<lparr>color_r = 0, color_g = 0, color_b = 0\<rparr>)
        (\<lambda>wire ep buf. fst ep = 1)
        \<lparr>config = \<lparr>refreshRate = 10, senders = ([] :: rat sender list)\<rparr>,
         computed_senders =
           [\<lparr>endpoint = (1 :: nat, 6454), computed_universe = 0, computed_fixtures = ([] :: unit computed_fixture list)\<rparr>,
            \<lparr>endpoint = (2, 6454), computed_universe = 1, computed_fixtures = []\<rparr>],
         last_frame = Some (), abort_request = False, thread_joinable = True\<rparr>
        \<lparr>sent = [], logged = []\<rparr>))
     = [(1, 6454)]"
  by (simp add: pacing_iteration_def send_computed_sender_def universe_buffer_def
      send_dmx_data_def Let_def)

section \<open>Properties of the diagnostics\<close>

lemma state_ran:
  "ran (state c) =
     {int (length (computed_senders c)), int (length (senders (config c))), refreshRate (config c)}"
  by (simp add: state_def ran_map_upd insert_commute)

text \<open>
  C9 (as amended): \<^verbatim>\<open>state\<close> has exactly three entries: the number of computed senders,
  the number of configured senders and the refresh rate.
\<close>

theorem state_entries:
  "state c ''artnet/computed-senders'' = Some (int (length (computed_senders c)))
   \<and> state c ''artnet/senders'' = Some (int (length (senders (config c))))
   \<and> state c ''artnet/refresh-rate'' = Some (refreshRate (config c))
   \<and> dom (state c) = {''artnet/computed-senders'', ''artnet/senders'', ''artnet/refresh-rate''}"
  by (simp add: state_def insert_commute)

text \<open>
  A consumer with one sender and three computed fixtures reports 1, 1 and 10; the number
  of computed fixtures is not among the values.
\<close>

theorem state_fixture_count_counterexample:
  "length (concat (map computed_fixtures (computed_senders
      \<lparr>config = \<lparr>refreshRate = 10, senders = [\<lparr>universe = 0, host = ''127.0.0.1'', port = 6454,
           fixtures = [\<lparr>fixture_type = RGB, startAddress = 0, fixtureCount = 3, fixtureChannels = 3,
             fixtureBox = \<lparr>box_x = 0 :: rat, box_y = 0, box_width = 0, box_height = 0, box_rotation = 0\<rparr>\<rparr>]\<rparr>]\<rparr>,
       computed_senders = [\<lparr>endpoint = (1 :: nat, 6454), computed_universe = 0,
           computed_fixtures = [\<lparr>computed_type = RGB, address = 0, rectangle = ()\<rparr>,
                                \<lparr>computed_type = RGB, address = 3, rectangle = ()\<rparr>,
                                \<lparr>computed_type = RGB, address = 6, rectangle = ()\<rparr>]\<rparr>],
       last_frame = (None :: unit option), abort_request = False, thread_joinable = False\<rparr>))) = 3
   \<and> ran (state
      \<lparr>config = \<lparr>refreshRate = 10, senders = [\<lparr>universe = 0, host = ''127.0.0.1'', port = 6454,
           fixtures = [\<lparr>fixture_type = RGB, startAddress = 0, fixtureCount = 3, fixtureChannels = 3,
             fixtureBox = \<lparr>box_x = 0 :: rat, box_y = 0, box_width = 0, box_height = 0, box_rotation = 0\<rparr>\<rparr>]\<rparr>]\<rparr>,
       computed_senders = [\<lparr>endpoint = (1 :: nat, 6454), computed_universe = 0,
           computed_fixtures = [\<lparr>computed_type = RGB, address = 0, rectangle = ()\<rparr>,
                                \<lparr>computed_type = RGB, address = 3, rectangle = ()\<rparr>,
                                \<lparr>computed_type = RGB, address = 6, rectangle = ()\<rparr>]\<rparr>],
       last_frame = (None :: unit option), abort_request = False, thread_joinable = False\<rparr>) = {1, 10}"
  by (simp add: state_ran)

end
